theory Spec2Isabelle
  imports Main "HOL-Library.Word"
begin

section \<open>C strings\<close>

text \<open>
  A C \<open>char\<close> is a HOL \<^typ>\<open>char\<close> (one byte); \<open>of_char\<close> reads it as an unsigned
  value. A \<open>char *\<close> argument is modelled by the bytes stored from the pointer up to the
  end of its buffer, the final terminating NUL being left implicit: the HOL string \<open>bs\<close>
  stands for the memory \<open>bs\<close> followed by \<open>'\0'\<close>. Every string of the program has that
  terminator (the entries of \<open>argv\<close>, and the buffer that \<open>decode\<close> allocates with
  \<open>count + 1\<close> bytes and closes with \<open>s[count] = '\0'\<close>). A buffer may hold further
  NUL bytes in front of the terminator; the C library stops at the first one.
\<close>

definition NUL :: char where
  "NUL = CHR 0x00"

text \<open>\<open>strlen\<close>: the number of bytes in front of the first NUL.\<close>

fun strlen :: "string \<Rightarrow> nat" where
  "strlen [] = 0"
| "strlen (c # cs) = (if c = NUL then 0 else Suc (strlen cs))"

text \<open>The characters a C library function reads from a string (as \<open>%s\<close> prints them).\<close>

definition c_string :: "string \<Rightarrow> string" where
  "c_string s = takeWhile (\<lambda>c. c \<noteq> NUL) s"

text \<open>
  \<open>strcmp\<close>: the difference of the first two bytes that differ, read as unsigned, or 0
  when both strings end together. An exhausted list is at its terminator.
\<close>

fun strcmp :: "string \<Rightarrow> string \<Rightarrow> int" where
  "strcmp [] [] = 0"
| "strcmp [] (b # bs) = - of_char b"
| "strcmp (a # as) [] = of_char a"
| "strcmp (a # as) (b # bs) =
     (if a \<noteq> b then of_char a - of_char b else if a = NUL then 0 else strcmp as bs)"

text \<open>\<open>isspace\<close> and \<open>isdigit\<close> in the C locale (the program never calls \<open>setlocale\<close>).\<close>

definition isspace :: "char \<Rightarrow> bool" where
  "isspace c = (c = CHR 0x20 \<or> (9 \<le> (of_char c :: nat) \<and> (of_char c :: nat) \<le> 13))"

definition isdigit :: "char \<Rightarrow> bool" where
  "isdigit c = (48 \<le> (of_char c :: nat) \<and> (of_char c :: nat) \<le> 57)"

definition digit_value :: "char \<Rightarrow> nat" where
  "digit_value c = of_char c - 48"

text \<open>The value of a string of decimal digits.\<close>

definition decimal :: "string \<Rightarrow> nat" where
  "decimal ds = foldl (\<lambda>acc c. acc * 10 + digit_value c) 0 ds"

text \<open>
  \<open>strtoul (nptr, &endp, 10)\<close> with \<open>unsigned long\<close> of 64 bits: leading white space,
  an optional sign, then decimal digits. The result is the value, the offset of \<open>endp\<close>
  from \<open>nptr\<close>, and \<open>errno\<close> (which the caller has set to 0 before the call). With no
  digit nothing is converted and \<open>endp = nptr\<close>; a value beyond \<open>ULONG_MAX\<close> gives
  \<open>ULONG_MAX\<close> and \<open>ERANGE\<close>; a minus sign negates the value in \<open>unsigned long\<close>.
\<close>

definition ULONG_MAX :: nat where
  "ULONG_MAX = 2 ^ 64 - 1"

definition UINT_MAX :: nat where
  "UINT_MAX = 2 ^ 32 - 1"

definition ERANGE :: int where
  "ERANGE = 34"

definition strtoul :: "string \<Rightarrow> 64 word \<times> nat \<times> int" where
  "strtoul nptr =
    (let s = c_string nptr;
         ws = takeWhile isspace s;
         r = dropWhile isspace s;
         has_sign = (r \<noteq> [] \<and> (hd r = CHR ''-'' \<or> hd r = CHR ''+''));
         negative = (r \<noteq> [] \<and> hd r = CHR ''-'');
         ds = takeWhile isdigit (if has_sign then tl r else r);
         endp = length ws + (if has_sign then 1 else 0) + length ds
     in if ds = [] then (0, 0, 0)
        else if ULONG_MAX < decimal ds then (of_nat ULONG_MAX, endp, ERANGE)
        else (if negative then - of_nat (decimal ds) else of_nat (decimal ds), endp, 0))"

text \<open>The byte at offset \<open>i\<close> of a string; the terminator stands behind the list.\<close>

definition deref :: "string \<Rightarrow> nat \<Rightarrow> char" where
  "deref s i = (if i < length s then s ! i else NUL)"

section \<open>The big-integer provider (GMP)\<close>

text \<open>
  \<open>mpz_import (x, count, 1, 1, 0, 0, s)\<close>: \<open>count\<close> words of one byte each, most
  significant word first, no nail bits; the result is never negative.
\<close>

definition mpz_import :: "nat \<Rightarrow> string \<Rightarrow> int" where
  "mpz_import count s = foldl (\<lambda>acc c. acc * 256 + of_char c) 0 (take count s)"

text \<open>
  \<open>mpz_export (NULL, &count, 1, 1, 0, 0, x)\<close>: the bytes of the absolute value of \<open>x\<close>,
  most significant first, as few as hold it; for zero no byte is produced and \<open>count\<close>
  is 0. The result is the freshly allocated buffer and \<open>count\<close>.
\<close>

function export_bytes :: "nat \<Rightarrow> string" where
  "export_bytes n = (if n = 0 then [] else export_bytes (n div 256) @ [char_of (n mod 256)])"
  by pat_completeness auto
termination
  by (relation "measure id") auto

declare export_bytes.simps [simp del]

definition mpz_export :: "int \<Rightarrow> string \<times> nat" where
  "mpz_export x = (let buf = export_bytes (nat \<bar>x\<bar>) in (buf, length buf))"

text \<open>
  \<open>mpz_set_str (c, str, 10)\<close>: leading white space is skipped, a minus sign may follow,
  and the next character must be a digit; from there on white space is ignored and every
  other character must be a digit. The result is \<open>None\<close> where GMP returns -1.
\<close>

definition mpz_set_str :: "string \<Rightarrow> int option" where
  "mpz_set_str str =
    (let s = dropWhile isspace (c_string str);
         negative = (s \<noteq> [] \<and> hd s = CHR ''-'');
         t = (if negative then tl s else s)
     in if t = [] \<or> \<not> isdigit (hd t) then None
        else if \<not> list_all (\<lambda>c. isspace c \<or> isdigit c) t then None
        else let v = int (decimal (filter isdigit t)) in Some (if negative then - v else v))"


text \<open>The decimal digits that \<open>%Zd\<close> prints.\<close>

function decimal_digits :: "nat \<Rightarrow> string" where
  "decimal_digits n =
     (if n < 10 then [char_of (48 + n)]
      else decimal_digits (n div 10) @ [char_of (48 + n mod 10)])"
  by pat_completeness auto
termination
  by (relation "measure id") auto

declare decimal_digits.simps [simp del]

definition show_mpz :: "int \<Rightarrow> string" where
  "show_mpz x = (if x < 0 then CHR ''-'' # decimal_digits (nat (- x)) else decimal_digits (nat x))"

section \<open>The RSA library (rsa.h)\<close>

text \<open>
  The key structure of rsa.h, with its fields named as the data model names them: the
  modulus n, the public exponent e and the private exponent d.
\<close>

record rsa_key =
  modulus :: int
  public_exponent :: int
  private_exponent :: int

text \<open>
  Modelled from the spec: \<open>rsa_encrypt\<close> is declared in rsa.h and implemented outside
  main.c. The transform engine "returns m^e mod n".
\<close>

definition rsa_encrypt :: "int \<Rightarrow> rsa_key \<Rightarrow> int" where
  "rsa_encrypt m key = m ^ nat (public_exponent key) mod modulus key"

text \<open>
  Modelled from the spec: \<open>rsa_decrypt\<close> is declared in rsa.h and implemented outside
  main.c. The transform engine "returns c^d mod n".
\<close>

definition rsa_decrypt :: "int \<Rightarrow> rsa_key \<Rightarrow> int" where
  "rsa_decrypt c key = c ^ nat (private_exponent key) mod modulus key"

text \<open>
  What a run of the program finds outside itself: what the key files hold (\<open>None\<close>
  where loading returns a nonzero code), the key the generator draws, the text the key
  serializer writes, and whether standard output accepts a write.
\<close>

record env =
  public_key_file :: "string \<Rightarrow> rsa_key option"
  private_key_file :: "string \<Rightarrow> rsa_key option"
  fresh_key :: "32 word \<Rightarrow> rsa_key"
  key_text :: "rsa_key \<Rightarrow> string"
  stdout_ok :: bool

text \<open>The calls into the RSA library, in the order they are made.\<close>

datatype call =
    Rsa_key_init
  | Rsa_key_clear
  | Rsa_key_load_public string
  | Rsa_key_load_private string
  | Rsa_encrypt int
  | Rsa_decrypt int
  | Rsa_genkey "32 word"
  | Rsa_key_write

text \<open>
  The state a run changes: the bytes written to standard output and to standard error,
  and the library calls made so far.
\<close>

record world =
  out :: string
  err :: string
  calls :: "call list"

definition called :: "call \<Rightarrow> world \<Rightarrow> world" where
  "called c w = w\<lparr>calls := calls w @ [c]\<rparr>"

definition rsa_key_load_public :: "env \<Rightarrow> string \<Rightarrow> world \<Rightarrow> rsa_key option \<times> world" where
  "rsa_key_load_public E filename w =
     (public_key_file E (c_string filename), called (Rsa_key_load_public (c_string filename)) w)"

definition rsa_key_load_private :: "env \<Rightarrow> string \<Rightarrow> world \<Rightarrow> rsa_key option \<times> world" where
  "rsa_key_load_private E filename w =
     (private_key_file E (c_string filename), called (Rsa_key_load_private (c_string filename)) w)"

text \<open>\<open>rsa_key_write (stdout, &key)\<close>: -1 when the stream refuses the write.\<close>

definition rsa_key_write :: "env \<Rightarrow> rsa_key \<Rightarrow> world \<Rightarrow> int \<times> world" where
  "rsa_key_write E key w =
     (if stdout_ok E then (0, called Rsa_key_write (w\<lparr>out := out w @ key_text E key\<rparr>))
      else (- 1, called Rsa_key_write w))"

section \<open>Standard streams\<close>

datatype stream = Stdout | Stderr

text \<open>
  Writing text to a stream. Standard error is taken to accept every write; standard
  output accepts a write when \<open>stdout_ok\<close> holds and then takes all of it.
\<close>

definition fprintf :: "env \<Rightarrow> stream \<Rightarrow> string \<Rightarrow> world \<Rightarrow> world" where
  "fprintf E fp text w =
     (case fp of
        Stderr \<Rightarrow> w\<lparr>err := err w @ text\<rparr>
      | Stdout \<Rightarrow> if stdout_ok E then w\<lparr>out := out w @ text\<rparr> else w)"

text \<open>
  \<open>fwrite (ptr, size, nmemb, stdout)\<close> returns the number of items written, and 0
  without touching the stream when \<open>size\<close> or \<open>nmemb\<close> is 0.
\<close>

definition fwrite :: "env \<Rightarrow> string \<Rightarrow> nat \<Rightarrow> nat \<Rightarrow> world \<Rightarrow> nat \<times> world" where
  "fwrite E ptr sz nmemb w =
     (if sz = 0 \<or> nmemb = 0 then (0, w)
      else if stdout_ok E then (nmemb, w\<lparr>out := out w @ take (sz * nmemb) ptr\<rparr>)
      else (0, w))"

text \<open>\<open>gmp_printf ("%Zd\n", c)\<close>: the number of characters written, or -1.\<close>

definition gmp_printf :: "env \<Rightarrow> int \<Rightarrow> world \<Rightarrow> int \<times> world" where
  "gmp_printf E c w =
     (if stdout_ok E
      then (int (length (show_mpz c)) + 1, w\<lparr>out := out w @ show_mpz c @ ''\<newline>''\<rparr>)
      else (- 1, w))"

section \<open>main.c\<close>

definition usage_text :: string where
  "usage_text =
     ''Usage:\<newline>'' @
     ''  rsa encrypt <keyfile> <message>\<newline>'' @
     ''  rsa decrypt <keyfile> <ciphertext>\<newline>'' @
     ''  rsa genkey <numbits>\<newline>''"

definition usage :: "env \<Rightarrow> stream \<Rightarrow> world \<Rightarrow> world" where
  "usage E fp w = fprintf E fp usage_text w"

text \<open>\<open>encode\<close>: \<open>mpz_import(x, strlen(s), 1, 1, 0, 0, s)\<close>.\<close>

definition encode :: "string \<Rightarrow> int" where
  "encode s = mpz_import (strlen s) s"

text \<open>
  \<open>decode\<close>: exports \<open>x\<close>, copies the \<open>count\<close> bytes into a buffer of \<open>count + 1\<close>
  bytes, terminates it and reports \<open>count\<close> as the length. The result is the returned
  string and the value stored in \<open>*len\<close>. (\<open>malloc\<close> is taken to succeed; the program
  aborts otherwise.)
\<close>

definition decode :: "int \<Rightarrow> string \<times> nat" where
  "decode x = (case mpz_export x of (buf, count) \<Rightarrow> (take count buf, count))"

text \<open>
  The three subcommands return the exit code of the program. Each one initialises its key
  first and clears it at the label \<open>done\<close>, which every path reaches.
\<close>

definition encrypt_mode :: "env \<Rightarrow> string \<Rightarrow> string \<Rightarrow> world \<Rightarrow> int \<times> world" where
  "encrypt_mode E key_filename message w0 =
    (case rsa_key_load_public E key_filename (called Rsa_key_init w0) of
       (None, w1) \<Rightarrow>
         (1, called Rsa_key_clear
               (fprintf E Stderr (''error reading key file '' @ c_string key_filename @ ''\<newline>'') w1))
     | (Some key, w1) \<Rightarrow>
         (let m = encode message;
              c = rsa_encrypt m key;
              (r, w2) = gmp_printf E c (called (Rsa_encrypt m) w1)
          in if r = - 1
             then (1, called Rsa_key_clear (fprintf E Stderr ''error writing ciphertext\<newline>'' w2))
             else (0, called Rsa_key_clear w2)))"

definition decrypt_mode :: "env \<Rightarrow> string \<Rightarrow> string \<Rightarrow> world \<Rightarrow> int \<times> world" where
  "decrypt_mode E key_filename c_str w0 =
    (case mpz_set_str c_str of
       None \<Rightarrow>
         (1, called Rsa_key_clear
               (fprintf E Stderr ''could not parse ciphertext\<newline>'' (called Rsa_key_init w0)))
     | Some c \<Rightarrow>
         (case rsa_key_load_private E key_filename (called Rsa_key_init w0) of
            (None, w1) \<Rightarrow>
              (1, called Rsa_key_clear
                    (fprintf E Stderr (''error reading key file '' @ c_string key_filename @ ''\<newline>'') w1))
          | (Some key, w1) \<Rightarrow>
              (let m = rsa_decrypt c key;
                   (message, len) = decode m;
                   (r, w2) = fwrite E message len 1 (called (Rsa_decrypt c) w1)
               in if r \<noteq> 1
                  then (1, called Rsa_key_clear (fprintf E Stderr ''error writing plaintext\<newline>'' w2))
                  else (0, called Rsa_key_clear w2))))"

definition genkey_mode :: "env \<Rightarrow> string \<Rightarrow> world \<Rightarrow> int \<times> world" where
  "genkey_mode E numbits_str w0 =
    (case strtoul numbits_str of
       (n, endp, errno) \<Rightarrow>
         if endp = 0 \<or> errno \<noteq> 0 \<or> deref numbits_str endp \<noteq> NUL
         then (1, called Rsa_key_clear
                    (fprintf E Stderr ''could not parse integer\<newline>'' (called Rsa_key_init w0)))
         else if UINT_MAX < unat n
         then (1, called Rsa_key_clear
                    (fprintf E Stderr ''integer is too large\<newline>'' (called Rsa_key_init w0)))
         else
           (let numbits = (ucast n :: 32 word);
                key = fresh_key E numbits;
                (rc, w1) = rsa_key_write E key (called (Rsa_genkey numbits) (called Rsa_key_init w0))
            in if rc = - 1 then (1, called Rsa_key_clear w1) else (0, called Rsa_key_clear w1)))"

text \<open>\<open>main\<close>: \<open>argc\<close> is the length of \<open>argv\<close>, whose first entry is the program's name.\<close>

definition main :: "env \<Rightarrow> string list \<Rightarrow> world \<Rightarrow> int \<times> world" where
  "main E argv w =
    (let argc = int (length argv) in
     if argc < 2 then (1, usage E Stderr w)
     else
       (let command = argv ! 1 in
        if strcmp command ''-h'' = 0 \<or> strcmp command ''--help'' = 0 \<or> strcmp command ''help'' = 0
        then (0, usage E Stdout w)
        else if strcmp command ''encrypt'' = 0
        then (if argc \<noteq> 4
              then (1, fprintf E Stderr ''encrypt needs a key filename and a message\<newline>'' w)
              else encrypt_mode E (argv ! 2) (argv ! 3) w)
        else if strcmp command ''decrypt'' = 0
        then (if argc \<noteq> 4
              then (1, fprintf E Stderr ''decrypt needs a key filename and a ciphertext\<newline>'' w)
              else decrypt_mode E (argv ! 2) (argv ! 3) w)
        else if strcmp command ''genkey'' = 0
        then (if argc \<noteq> 3
              then (1, fprintf E Stderr ''genkey needs a number of bits\<newline>'' w)
              else genkey_mode E (argv ! 2) w)
        else (1, usage E Stderr w)))"

text \<open>A run starts with nothing written and no call made.\<close>

definition start :: world where
  "start = \<lparr>out = [], err = [], calls = []\<rparr>"

section \<open>Terms of the specification\<close>

text \<open>
  The big-endian unsigned value of a byte string, as the specification of the codec
  words it: the first byte is the most significant.
\<close>

definition big_endian :: "string \<Rightarrow> nat" where
  "big_endian s = foldl (\<lambda>acc c. acc * 256 + of_char c) 0 s"

text \<open>
  A decimal integer as it is usually written: a plus sign, a minus sign or none, and then
  one digit or more. Its value is that of the digits, negated behind a minus sign.
\<close>

definition decimal_integer :: "string \<Rightarrow> bool" where
  "decimal_integer s =
    (let ds = (if s \<noteq> [] \<and> (hd s = CHR ''-'' \<or> hd s = CHR ''+'') then tl s else s)
     in ds \<noteq> [] \<and> list_all isdigit ds)"

definition decimal_value :: "string \<Rightarrow> int" where
  "decimal_value s =
    (if s \<noteq> [] \<and> hd s = CHR ''-'' then - int (decimal (tl s))
     else if s \<noteq> [] \<and> hd s = CHR ''+'' then int (decimal (tl s))
     else int (decimal s))"

text \<open>
  Modular exponentiation by squaring. It computes the same as \<open>b ^ k mod m\<close> and serves
  to evaluate the example runs.
\<close>

function modpow :: "int \<Rightarrow> nat \<Rightarrow> int \<Rightarrow> int" where
  "modpow b k m =
     (if k = 0 then 1 mod m
      else let h = modpow b (k div 2) m; s = h * h mod m
           in if even k then s else s * b mod m)"
  by pat_completeness auto
termination
  by (relation "measure (\<lambda>(b, k, m). k)") auto

declare modpow.simps [simp del]

text \<open>A small key pair (p = 61, q = 53) and a run environment holding it in two files.\<close>

definition example_key :: rsa_key where
  "example_key = \<lparr>modulus = 3233, public_exponent = 17, private_exponent = 2753\<rparr>"

definition example_env :: env where
  "example_env =
     \<lparr>public_key_file = (\<lambda>f. if f = ''pub.key'' \<or> f = ''priv.key'' then Some example_key else None),
      private_key_file = (\<lambda>f. if f = ''priv.key'' then Some example_key else None),
      fresh_key = (\<lambda>bits. example_key),
      key_text = (\<lambda>k. show_mpz (modulus k) @ ''\<newline>''),
      stdout_ok = True\<rparr>"

section \<open>Properties of the codec\<close>

lemma strlen_takeWhile: "strlen s = length (takeWhile (\<lambda>c. c \<noteq> NUL) s)"
  by (induction s) auto

lemma take_strlen: "take (strlen s) s = takeWhile (\<lambda>c. c \<noteq> NUL) s"
  by (induction s) auto

lemma strlen_no_NUL: "NUL \<notin> set s \<Longrightarrow> strlen s = length s"
  by (induction s) auto

lemma big_endian_Nil: "big_endian [] = 0"
  by (simp add: big_endian_def)

lemma big_endian_snoc: "big_endian (s @ [c]) = big_endian s * 256 + of_char c"
  by (simp add: big_endian_def)

lemma mpz_import_all: "mpz_import (length s) s = int (big_endian s)"
  by (induction s rule: rev_induct) (simp_all add: mpz_import_def big_endian_def of_nat_of_char)

lemma mpz_import_big_endian: "mpz_import count s = int (big_endian (take count s))"
proof -
  have "mpz_import count s = mpz_import (length (take count s)) (take count s)"
    by (cases "count \<le> length s") (simp_all add: mpz_import_def min_def)
  then show ?thesis by (simp only: mpz_import_all)
qed

lemma of_char_NUL: "of_char NUL = (0::nat)"
  by (simp add: NUL_def)

lemma of_char_eq_0_iff: "of_char c = (0::nat) \<longleftrightarrow> c = NUL"
proof
  assume "of_char c = (0::nat)"
  then have "of_char c = (of_char NUL :: nat)" by (simp only: of_char_NUL)
  then show "c = NUL" by (rule of_char_eqI)
qed (simp add: of_char_NUL)

lemma char_of_eq_NUL_iff: "char_of (n::nat) = NUL \<longleftrightarrow> n mod 256 = 0"
proof -
  have "char_of n = NUL \<longleftrightarrow> of_char (char_of n) = (0::nat)"
    by (simp only: of_char_eq_0_iff)
  then show ?thesis by simp
qed

lemma big_endian_export: "big_endian (export_bytes n) = n"
proof (induction n rule: export_bytes.induct)
  case (1 n)
  show ?case
  proof (cases "n = 0")
    case True
    then show ?thesis by (simp add: export_bytes.simps big_endian_Nil)
  next
    case False
    with 1 have "big_endian (export_bytes (n div 256)) = n div 256" by simp
    with False show ?thesis
      by (subst export_bytes.simps) (simp add: big_endian_snoc)
  qed
qed

lemma big_endian_less: "big_endian s < 256 ^ length s"
proof (induction s rule: rev_induct)
  case Nil
  show ?case by (simp add: big_endian_Nil)
next
  case (snoc c s)
  have "of_char c < (256::nat)" by simp
  with snoc have "big_endian s * 256 + of_char c < (big_endian s + 1) * 256" by simp
  also from snoc have "\<dots> \<le> 256 ^ length s * 256" by (simp add: Suc_leI)
  finally show ?case by (simp add: big_endian_snoc)
qed

lemma export_bytes_lower: "0 < n \<Longrightarrow> 256 ^ (length (export_bytes n) - 1) \<le> n"
proof (induction n rule: export_bytes.induct)
  case (1 n)
  show ?case
  proof (cases "n div 256 = 0")
    case True
    with 1(2) show ?thesis
      by (subst export_bytes.simps) (simp add: export_bytes.simps [of 0])
  next
    case False
    with 1 have ih: "256 ^ (length (export_bytes (n div 256)) - 1) \<le> n div 256" by simp
    from False have "export_bytes (n div 256) \<noteq> []"
      by (subst export_bytes.simps) simp
    then have "0 < length (export_bytes (n div 256))" by simp
    then have "(256::nat) ^ length (export_bytes (n div 256)) = 256 ^ (length (export_bytes (n div 256)) - 1) * 256"
      by (cases "length (export_bytes (n div 256))") simp_all
    also from ih have "\<dots> \<le> (n div 256) * 256" by simp
    also have "\<dots> \<le> n" by simp
    finally show ?thesis using 1(2)
      by (subst export_bytes.simps) simp
  qed
qed

lemma export_bytes_hd: "export_bytes n \<noteq> [] \<Longrightarrow> hd (export_bytes n) \<noteq> NUL"
proof (induction n rule: export_bytes.induct)
  case (1 n)
  from 1(2) have n: "n \<noteq> 0" by (subst (asm) export_bytes.simps) (simp split: if_splits)
  show ?case
  proof (cases "n div 256 = 0")
    case True
    with n have "n mod 256 \<noteq> 0" by auto
    then have "char_of (n mod 256) \<noteq> NUL"
      by (simp add: char_of_eq_NUL_iff)
    with True n show ?thesis
      by (subst export_bytes.simps) (simp add: export_bytes.simps [of 0])
  next
    case False
    then have ne: "export_bytes (n div 256) \<noteq> []"
      by (subst export_bytes.simps) simp
    with 1(1) n have "hd (export_bytes (n div 256)) \<noteq> NUL" by simp
    with ne n show ?thesis
      by (subst export_bytes.simps) simp
  qed
qed

lemma big_endian_pos: "s \<noteq> [] \<Longrightarrow> hd s \<noteq> NUL \<Longrightarrow> 0 < big_endian s"
proof (induction s rule: rev_induct)
  case Nil
  then show ?case by simp
next
  case (snoc c s)
  show ?case
  proof (cases "s = []")
    case True
    with snoc(3) have "c \<noteq> NUL" by simp
    then have "of_char c \<noteq> (0::nat)"
      by (simp add: of_char_eq_0_iff)
    with True show ?thesis by (simp add: big_endian_def)
  next
    case False
    with snoc have "0 < big_endian s" by simp
    then show ?thesis by (simp add: big_endian_snoc)
  qed
qed

lemma export_big_endian: "s = [] \<or> hd s \<noteq> NUL \<Longrightarrow> export_bytes (big_endian s) = s"
proof (induction s rule: rev_induct)
  case Nil
  show ?case by (simp add: big_endian_Nil export_bytes.simps)
next
  case (snoc c s)
  have "0 < big_endian (s @ [c])" using snoc(2) by (intro big_endian_pos) auto
  moreover have "(big_endian s * 256 + of_char c) div 256 = big_endian s" by simp
  moreover have "char_of ((big_endian s * 256 + of_char c) mod 256) = c"
    by simp
  moreover have "export_bytes (big_endian s) = s"
    using snoc by (cases s) auto
  ultimately show ?case
    by (subst export_bytes.simps) (simp add: big_endian_snoc)
qed

lemma encode_big_endian: "encode s = int (big_endian (c_string s))"
  by (simp add: encode_def mpz_import_big_endian take_strlen c_string_def)

lemma decode_nonneg: "0 \<le> x \<Longrightarrow> decode x = (export_bytes (nat x), length (export_bytes (nat x)))"
  by (simp add: decode_def mpz_export_def Let_def)

lemma c_string_no_NUL: "NUL \<notin> set s \<Longrightarrow> c_string s = s"
  by (induction s) (auto simp: c_string_def)

lemma c_string_shorter: "NUL \<in> set s \<Longrightarrow> length (c_string s) < length s"
  unfolding c_string_def by (induction s) (auto simp: less_Suc_eq_le length_takeWhile_le)

lemma NUL_notin_c_string: "NUL \<notin> set (c_string s)"
  unfolding c_string_def by (induction s) auto

lemma hd_c_string: "c_string s = [] \<or> hd (c_string s) \<noteq> NUL"
  using NUL_notin_c_string [of s] by (cases "c_string s") auto

lemma c_string_append_NUL: "NUL \<notin> set p \<Longrightarrow> c_string (p @ NUL # r) = p"
  unfolding c_string_def by (induction p) auto

lemma export_bytes_eq_Nil: "export_bytes k = [] \<longleftrightarrow> k = 0"
  by (subst export_bytes.simps) simp

lemma big_endian_shorter:
  assumes "0 < k" and "length t < length (export_bytes k)"
  shows "big_endian t < k"
proof -
  have "big_endian t < 256 ^ length t" by (rule big_endian_less)
  also from assms(2) have "(256::nat) ^ length t \<le> 256 ^ (length (export_bytes k) - 1)"
    by (intro power_increasing) auto
  also from assms(1) have "\<dots> \<le> k" by (rule export_bytes_lower)
  finally show ?thesis .
qed

lemma decode_encode: "decode (encode s) = (c_string s, strlen s)"
proof -
  have "export_bytes (big_endian (c_string s)) = c_string s"
    using hd_c_string [of s] by (rule export_big_endian)
  then show ?thesis
    by (simp add: encode_big_endian decode_nonneg strlen_takeWhile c_string_def)
qed

lemma decode_big_endian:
  "s = [] \<or> hd s \<noteq> NUL \<Longrightarrow> decode (int (big_endian s)) = (s, length s)"
  by (simp add: decode_nonneg export_big_endian)

lemma decode_256: "decode 256 = ([CHR 0x01, CHR 0x00], 2)"
  using decode_big_endian [of "[CHR 0x01, CHR 0x00]"] by (simp add: big_endian_def NUL_def)

lemma decode_hi: "decode 26729 = (''hi'', 2)"
  using decode_big_endian [of "''hi''"] by (simp add: big_endian_def NUL_def)

section \<open>Claims about the codec\<close>

text \<open>
  C1 (as amended). For every integer \<open>x \<ge> 0\<close>, passing the string that \<open>decode\<close> returns
  to \<open>encode\<close> gives back \<open>x\<close> exactly when that string holds no zero byte: \<open>encode\<close>
  measures its argument with \<open>strlen\<close> and so stops at the first zero byte.
\<close>

theorem encode_decode_iff_no_NUL:
  "0 \<le> x \<Longrightarrow> (encode (fst (decode x)) = x) = (NUL \<notin> set (fst (decode x)))"
proof -
  assume x: "0 \<le> x"
  let ?s = "export_bytes (nat x)"
  have dec: "fst (decode x) = ?s" using x by (simp add: decode_nonneg)
  show ?thesis
  proof (cases "NUL \<in> set ?s")
    case True
    then have less: "length (c_string ?s) < length ?s" by (rule c_string_shorter)
    from True have "?s \<noteq> []" by auto
    then have "0 < nat x" by (simp add: export_bytes_eq_Nil)
    from big_endian_shorter [OF this less] have "int (big_endian (c_string ?s)) \<noteq> x" by simp
    with True show ?thesis by (simp add: dec encode_big_endian)
  next
    case False
    then have "c_string ?s = ?s" by (rule c_string_no_NUL)
    with False x show ?thesis by (simp add: dec encode_big_endian big_endian_export)
  qed
qed

text \<open>An instance of C1 as amended: 26729 decodes to \<open>hi\<close>, which encodes to 26729.\<close>

theorem encode_decode_iff_no_NUL_witness:
  "(0::int) \<le> 26729 \<and> NUL \<notin> set (fst (decode 26729)) \<and>
   encode (fst (decode 26729)) = 26729"
  using encode_decode_iff_no_NUL [of 26729] by (simp add: decode_hi NUL_def)

text \<open>
  C1 as stated fails at 256: its minimal big-endian bytes are 01 00, and \<open>encode\<close> reads
  only the first of them.
\<close>

theorem encode_decode_256_counterexample: "encode (fst (decode 256)) \<noteq> 256"
  by (simp add: decode_256 encode_big_endian c_string_def NUL_def big_endian_def)

text \<open>
  C2 (as amended). For every byte string \<open>s\<close>, decoding the result of encoding \<open>s\<close> gives
  back \<open>s\<close> and its length exactly when \<open>s\<close> holds no zero byte.
\<close>

theorem decode_encode_iff_no_NUL:
  "(decode (encode s) = (s, length s)) = (NUL \<notin> set s)"
proof (cases "NUL \<in> set s")
  case True
  then have "length (c_string s) < length s" by (rule c_string_shorter)
  then have "c_string s \<noteq> s" by auto
  with True show ?thesis by (simp add: decode_encode)
next
  case False
  then show ?thesis by (simp add: decode_encode c_string_no_NUL strlen_no_NUL)
qed

text \<open>An instance of C2 as amended, at the string \<open>hi\<close>.\<close>

theorem decode_encode_iff_no_NUL_witness:
  "NUL \<notin> set ''hi'' \<and> decode (encode ''hi'') = (''hi'', length ''hi'')"
  using decode_encode_iff_no_NUL [of "''hi''"] by (simp add: NUL_def)

text \<open>
  C2 as stated fails at the bytes 01 00 02, which do not start with a zero byte: the round
  trip returns the single byte 01.
\<close>

theorem decode_encode_interior_NUL_counterexample:
  "hd [CHR 0x01, CHR 0x00, CHR 0x02] \<noteq> NUL \<and>
   decode (encode [CHR 0x01, CHR 0x00, CHR 0x02]) \<noteq> ([CHR 0x01, CHR 0x00, CHR 0x02], 3)"
  by (simp add: decode_encode c_string_def NUL_def)

text \<open>
  C7. For every integer \<open>x \<ge> 0\<close>, \<open>decode\<close> returns a byte string whose big-endian value
  is \<open>x\<close>, which has no leading zero byte and is as short as any byte string of that
  value, and it reports the string's length; \<open>decode 0\<close> is the empty string with length 0.
\<close>

theorem decode_minimal_big_endian:
  "(0 \<le> x \<longrightarrow>
      (case decode x of (s, len) \<Rightarrow>
         int (big_endian s) = x \<and> len = length s \<and> (s \<noteq> [] \<longrightarrow> hd s \<noteq> NUL) \<and>
         (\<forall>t. int (big_endian t) = x \<longrightarrow> length s \<le> length t))) \<and>
   decode 0 = ([], 0)"
proof (intro conjI impI)
  assume x: "0 \<le> x"
  let ?s = "export_bytes (nat x)"
  have minimal: "length ?s \<le> length t" if t: "int (big_endian t) = x" for t
  proof (rule ccontr)
    assume "\<not> length ?s \<le> length t"
    then have less: "length t < length ?s" by simp
    then have "?s \<noteq> []" by auto
    then have "0 < nat x" by (simp add: export_bytes_eq_Nil)
    from big_endian_shorter [OF this less] t show False by simp
  qed
  from x have "int (big_endian ?s) = x" by (simp add: big_endian_export)
  with x minimal show "case decode x of (s, len) \<Rightarrow>
         int (big_endian s) = x \<and> len = length s \<and> (s \<noteq> [] \<longrightarrow> hd s \<noteq> NUL) \<and>
         (\<forall>t. int (big_endian t) = x \<longrightarrow> length s \<le> length t)"
    by (simp add: decode_nonneg export_bytes_hd)
next
  show "decode 0 = ([], 0)"
    by (simp add: decode_def mpz_export_def export_bytes.simps)
qed

text \<open>
  An instance of C7 at 26729, whose minimal byte string is \<open>hi\<close>; a zero byte in front
  gives a longer string of the same value.
\<close>

theorem decode_minimal_big_endian_witness:
  "(0::int) \<le> 26729 \<and> decode 26729 = (''hi'', 2) \<and> int (big_endian ''hi'') = 26729 \<and>
   int (big_endian [NUL, CHR ''h'', CHR ''i'']) = 26729 \<and>
   length (fst (decode 26729)) \<le> length [NUL, CHR ''h'', CHR ''i'']"
  using decode_minimal_big_endian [of 26729]
  by (simp add: decode_hi big_endian_def NUL_def)

text \<open>
  C8. \<open>encode\<close> reads exactly \<open>strlen s\<close> bytes of its input: a string with a zero byte
  behind a prefix free of zero bytes encodes to the value of that prefix, whatever follows
  the zero byte.
\<close>

theorem encode_reads_strlen_bytes:
  "encode s = int (big_endian (take (strlen s) s)) \<and>
   (NUL \<notin> set p \<longrightarrow>
      strlen (p @ NUL # r) = length p \<and> encode (p @ NUL # r) = int (big_endian p))"
proof (intro conjI impI)
  have "take (strlen s) s = c_string s"
    by (simp add: take_strlen c_string_def)
  then show "encode s = int (big_endian (take (strlen s) s))"
    by (simp add: encode_big_endian)
next
  assume p: "NUL \<notin> set p"
  then have "c_string (p @ NUL # r) = p" by (rule c_string_append_NUL)
  then show "strlen (p @ NUL # r) = length p" "encode (p @ NUL # r) = int (big_endian p)"
    by (simp_all add: encode_big_endian strlen_takeWhile c_string_def)
qed

text \<open>An instance of C8: the bytes after the zero byte in \<open>hi\0there\<close> are not read.\<close>

theorem encode_reads_strlen_bytes_witness:
  "NUL \<notin> set ''hi'' \<and> strlen (''hi'' @ NUL # ''there'') = 2 \<and>
   encode (''hi'' @ NUL # ''there'') = 26729"
  using encode_reads_strlen_bytes [of "''hi''" "''hi''" "''there''"]
  by (simp add: NUL_def big_endian_def)

section \<open>Properties of the command line\<close>

lemma of_char_int_eq_0_iff: "of_char c = (0::int) \<longleftrightarrow> c = NUL"
proof -
  have "of_char NUL = (0::int)" by (simp add: NUL_def)
  then have "of_char c = (0::int) \<longleftrightarrow> of_char c = (of_char NUL :: int)" by simp
  then show ?thesis by (simp only: of_char_eq_iff)
qed

lemma c_string_Nil: "c_string [] = []"
  by (simp add: c_string_def)

lemma c_string_Cons: "c_string (a # as) = (if a = NUL then [] else a # c_string as)"
  by (simp add: c_string_def)

lemma strcmp_eq_0_iff: "strcmp a b = 0 \<longleftrightarrow> c_string a = c_string b"
proof (induction a b rule: strcmp.induct)
  case 1
  show ?case by simp
next
  case (2 b bs)
  show ?case by (simp add: c_string_Nil c_string_Cons of_char_int_eq_0_iff)
next
  case (3 a as)
  show ?case by (simp add: c_string_Nil c_string_Cons of_char_int_eq_0_iff)
next
  case (4 a as b bs)
  then show ?case by (auto simp: c_string_Cons)
qed

lemma c_string_literals:
  "c_string ''-h'' = ''-h''" "c_string ''--help'' = ''--help''" "c_string ''help'' = ''help''"
  "c_string ''encrypt'' = ''encrypt''" "c_string ''decrypt'' = ''decrypt''"
  "c_string ''genkey'' = ''genkey''"
  by (simp_all add: c_string_def NUL_def)

lemmas strcmp_literal = strcmp_eq_0_iff c_string_literals

lemma fprintf_Stderr: "fprintf E Stderr text w = w\<lparr>err := err w @ text\<rparr>"
  by (simp add: fprintf_def)

lemma main_no_command: "length argv < 2 \<Longrightarrow> main E argv w = (1, w\<lparr>err := err w @ usage_text\<rparr>)"
  by (simp add: main_def usage_def fprintf_Stderr)

lemma main_unrecognized:
  assumes "2 \<le> length argv"
    and "c_string (argv ! 1) \<notin> set [''-h'', ''--help'', ''help'', ''encrypt'', ''decrypt'', ''genkey'']"
  shows "main E argv w = (1, w\<lparr>err := err w @ usage_text\<rparr>)"
  using assms by (simp add: main_def usage_def fprintf_Stderr strcmp_literal)

lemma main_encrypt:
  assumes "2 \<le> length argv" and "c_string (argv ! 1) = ''encrypt''"
  shows "main E argv w =
    (if length argv \<noteq> 4
     then (1, w\<lparr>err := err w @ ''encrypt needs a key filename and a message\<newline>''\<rparr>)
     else encrypt_mode E (argv ! 2) (argv ! 3) w)"
  using assms by (simp add: main_def fprintf_Stderr strcmp_literal)

lemma main_decrypt:
  assumes "2 \<le> length argv" and "c_string (argv ! 1) = ''decrypt''"
  shows "main E argv w =
    (if length argv \<noteq> 4
     then (1, w\<lparr>err := err w @ ''decrypt needs a key filename and a ciphertext\<newline>''\<rparr>)
     else decrypt_mode E (argv ! 2) (argv ! 3) w)"
  using assms by (simp add: main_def fprintf_Stderr strcmp_literal)

lemma main_genkey:
  assumes "2 \<le> length argv" and "c_string (argv ! 1) = ''genkey''"
  shows "main E argv w =
    (if length argv \<noteq> 3
     then (1, w\<lparr>err := err w @ ''genkey needs a number of bits\<newline>''\<rparr>)
     else genkey_mode E (argv ! 2) w)"
  using assms by (simp add: main_def fprintf_Stderr strcmp_literal)

lemma decrypt_mode_parse_error:
  assumes "mpz_set_str c_str = None"
  shows "decrypt_mode E key_filename c_str w =
    (1, w\<lparr>err := err w @ ''could not parse ciphertext\<newline>'',
           calls := calls w @ [Rsa_key_init, Rsa_key_clear]\<rparr>)"
  using assms by (simp add: decrypt_mode_def fprintf_Stderr called_def)

lemma decrypt_mode_key_error:
  assumes "mpz_set_str c_str = Some c" and "private_key_file E (c_string key_filename) = None"
  shows "decrypt_mode E key_filename c_str w =
    (1, w\<lparr>err := err w @ ''error reading key file '' @ c_string key_filename @ ''\<newline>'',
           calls := calls w @ [Rsa_key_init, Rsa_key_load_private (c_string key_filename), Rsa_key_clear]\<rparr>)"
  using assms by (simp add: decrypt_mode_def rsa_key_load_private_def fprintf_Stderr called_def)

lemma decode_length: "decode x = (s, len) \<Longrightarrow> len = length s"
  by (auto simp: decode_def mpz_export_def Let_def)

lemma decrypt_mode_loaded:
  assumes "mpz_set_str c_str = Some c" and "private_key_file E (c_string key_filename) = Some key"
    and "decode (rsa_decrypt c key) = (message, len)"
  shows "decrypt_mode E key_filename c_str w =
    (if len = 0 \<or> \<not> stdout_ok E
     then (1, w\<lparr>err := err w @ ''error writing plaintext\<newline>'',
                 calls := calls w @ [Rsa_key_init, Rsa_key_load_private (c_string key_filename),
                                     Rsa_decrypt c, Rsa_key_clear]\<rparr>)
     else (0, w\<lparr>out := out w @ message,
                 calls := calls w @ [Rsa_key_init, Rsa_key_load_private (c_string key_filename),
                                     Rsa_decrypt c, Rsa_key_clear]\<rparr>))"
  using assms decode_length [OF assms(3)]
  by (simp add: decrypt_mode_def rsa_key_load_private_def fwrite_def fprintf_Stderr called_def)

lemma encrypt_mode_loaded:
  assumes "public_key_file E (c_string key_filename) = Some key" and "stdout_ok E"
  shows "encrypt_mode E key_filename message w =
    (0, w\<lparr>out := out w @ show_mpz (rsa_encrypt (encode message) key) @ ''\<newline>'',
           calls := calls w @ [Rsa_key_init, Rsa_key_load_public (c_string key_filename),
                               Rsa_encrypt (encode message), Rsa_key_clear]\<rparr>)"
  using assms
  by (simp add: encrypt_mode_def rsa_key_load_public_def gmp_printf_def called_def Let_def)

lemma isdigit_not_NUL: "isdigit c \<Longrightarrow> c \<noteq> NUL"
  by (auto simp: isdigit_def NUL_def)

lemma isdigit_not_isspace: "isdigit c \<Longrightarrow> \<not> isspace c"
  by (auto simp: isdigit_def isspace_def)

lemma isdigit_not_sign: "isdigit c \<Longrightarrow> c \<noteq> CHR ''-'' \<and> c \<noteq> CHR ''+''"
  by (auto simp: isdigit_def)

lemma digits_c_string: "list_all isdigit ds \<Longrightarrow> c_string ds = ds"
  by (rule c_string_no_NUL) (auto simp: list_all_iff dest: isdigit_not_NUL)

lemma minus_not_isspace: "\<not> isspace CHR ''-''"
  by (simp add: isspace_def)

lemma minus_not_NUL: "CHR ''-'' \<noteq> NUL"
  by (simp add: NUL_def)

lemma filter_digits: "list_all isdigit ds \<Longrightarrow> filter isdigit ds = ds"
  by (induction ds) auto

lemma list_all_space_or_digit: "list_all isdigit ds \<Longrightarrow> list_all (\<lambda>c. isspace c \<or> isdigit c) ds"
  by (induction ds) auto

lemma mpz_set_str_negative:
  assumes "ds \<noteq> []" and "list_all isdigit ds"
  shows "mpz_set_str (CHR ''-'' # ds) = Some (- int (decimal ds))"
proof -
  from assms obtain c cs where ds: "ds = c # cs" and c: "isdigit c"
    by (cases ds) auto
  have "c_string (CHR ''-'' # ds) = CHR ''-'' # ds"
    using assms(2) by (simp add: c_string_Cons minus_not_NUL digits_c_string)
  then show ?thesis
    using assms c
    by (simp add: mpz_set_str_def minus_not_isspace filter_digits list_all_space_or_digit ds)
qed

lemma mpz_set_str_notanumber: "mpz_set_str ''notanumber'' = None"
  by (simp add: mpz_set_str_def c_string_def NUL_def isspace_def isdigit_def)

lemma mpz_set_str_0: "mpz_set_str ''0'' = Some 0"
  by (simp add: mpz_set_str_def c_string_def NUL_def isspace_def isdigit_def decimal_def digit_value_def)

lemma c_string_file_names:
  "c_string ''priv.key'' = ''priv.key''" "c_string ''pub.key'' = ''pub.key''"
  by (simp_all add: c_string_def NUL_def)

lemma example_files:
  "private_key_file example_env ''priv.key'' = Some example_key"
  "public_key_file example_env ''pub.key'' = Some example_key"
  "stdout_ok example_env"
  by (simp_all add: example_env_def)

lemma show_mpz_0: "show_mpz 0 = ''0''"
  by (simp add: show_mpz_def decimal_digits.simps char_of_eq_iff)

lemma genkey_mode_rejected:
  assumes "strtoul numbits_str = (v, endp, errno)"
    and "endp = 0 \<or> errno \<noteq> 0 \<or> deref numbits_str endp \<noteq> NUL \<or> UINT_MAX < unat v"
  shows "genkey_mode E numbits_str w =
    (1, w\<lparr>err := err w @
               (if endp = 0 \<or> errno \<noteq> 0 \<or> deref numbits_str endp \<noteq> NUL
                then ''could not parse integer\<newline>'' else ''integer is too large\<newline>''),
           calls := calls w @ [Rsa_key_init, Rsa_key_clear]\<rparr>)"
  using assms by (auto simp: genkey_mode_def fprintf_Stderr called_def)

lemma takeWhile_digits: "list_all isdigit ds \<Longrightarrow> takeWhile isdigit ds = ds"
  by (induction ds) auto

lemma strtoul_digits:
  assumes "ds \<noteq> []" and "list_all isdigit ds"
  shows "strtoul ds =
    (if ULONG_MAX < decimal ds then (of_nat ULONG_MAX, length ds, ERANGE)
     else (of_nat (decimal ds), length ds, 0))"
proof -
  from assms obtain c cs where ds: "ds = c # cs" and c: "isdigit c"
    by (cases ds) auto
  from c have sign: "\<not> isspace c" "c \<noteq> CHR ''-''" "c \<noteq> CHR ''+''"
    by (simp_all add: isdigit_not_isspace isdigit_not_sign)
  from assms(2) have rest: "takeWhile isdigit cs = cs"
    by (simp add: ds takeWhile_digits)
  from assms(2) have str: "c_string (c # cs) = c # cs"
    unfolding ds by (rule digits_c_string)
  show ?thesis
    unfolding ds strtoul_def str by (simp add: sign c rest Let_def)
qed

lemma unat_of_nat_ulong: "k \<le> ULONG_MAX \<Longrightarrow> unat (of_nat k :: 64 word) = k"
  by (simp add: ULONG_MAX_def unat_of_nat)

lemma decimal_4294967296: "decimal ''4294967296'' = 4294967296"
  by (simp add: decimal_def digit_value_def)

lemma mpz_set_str_bad_char:
  assumes "c \<in> set (c_string str)" and "\<not> isdigit c" and "\<not> isspace c" and "c \<noteq> CHR ''-''"
  shows "mpz_set_str str = None"
proof -
  define s where "s = dropWhile isspace (c_string str)"
  define t where "t = (if s \<noteq> [] \<and> hd s = CHR ''-'' then tl s else s)"
  have "set (c_string str) = set (takeWhile isspace (c_string str)) \<union> set s"
    unfolding s_def by (metis set_append takeWhile_dropWhile_id)
  moreover have "c \<notin> set (takeWhile isspace (c_string str))"
    using assms(3) by (auto dest: set_takeWhileD)
  ultimately have in_s: "c \<in> set s" using assms(1) by auto
  have in_t: "c \<in> set t"
  proof (cases "s \<noteq> [] \<and> hd s = CHR ''-''")
    case True
    then have "s = CHR ''-'' # tl s" by (cases s) auto
    with in_s have "c \<in> set (CHR ''-'' # tl s)" by simp
    with assms(4) have "c \<in> set (tl s)" by simp
    with True show ?thesis by (simp add: t_def)
  next
    case False
    with in_s show ?thesis by (auto simp: t_def)
  qed
  then have bad: "\<not> list_all (\<lambda>c. isspace c \<or> isdigit c) t"
    using assms(2,3) by (auto simp: list_all_iff)
  have "mpz_set_str str =
    (if t = [] \<or> \<not> isdigit (hd t) then None
     else if \<not> list_all (\<lambda>c. isspace c \<or> isdigit c) t then None
     else let v = int (decimal (filter isdigit t))
          in Some (if s \<noteq> [] \<and> hd s = CHR ''-'' then - v else v))"
    by (simp only: mpz_set_str_def Let_def s_def t_def)
  with bad show ?thesis by simp
qed

lemma mpz_set_str_digits:
  assumes "ds \<noteq> []" and "list_all isdigit ds"
  shows "mpz_set_str ds = Some (int (decimal ds))"
proof -
  from assms obtain c cs where ds: "ds = c # cs" and c: "isdigit c"
    by (cases ds) auto
  from c have sign: "\<not> isspace c" "c \<noteq> CHR ''-''"
    by (simp_all add: isdigit_not_isspace isdigit_not_sign)
  from assms(2) have str: "c_string (c # cs) = c # cs"
    unfolding ds by (rule digits_c_string)
  from assms(2) have "filter isdigit cs = cs" "list_all (\<lambda>c. isspace c \<or> isdigit c) cs"
    by (simp_all add: ds filter_digits list_all_space_or_digit)
  then show ?thesis
    unfolding ds mpz_set_str_def str by (simp add: sign c Let_def)
qed

lemma decode_0: "decode 0 = ([], 0)"
  by (simp add: decode_def mpz_export_def export_bytes.simps)

lemma rsa_example_zero:
  "rsa_encrypt 0 example_key = 0" "rsa_decrypt 0 example_key = 0"
  by (simp_all add: rsa_encrypt_def rsa_decrypt_def example_key_def)

lemma c_string_prefix: "s = c_string s @ dropWhile (\<lambda>c. c \<noteq> NUL) s"
  by (simp add: c_string_def)

lemma deref_inside:
  assumes "i < length (c_string s)"
  shows "deref s i \<noteq> NUL"
proof -
  have len: "length (c_string s) \<le> length s"
    by (simp add: c_string_def length_takeWhile_le)
  have "s ! i = (c_string s @ dropWhile (\<lambda>c. c \<noteq> NUL) s) ! i"
    using c_string_prefix [of s] by simp
  also have "\<dots> = c_string s ! i"
    using assms by (simp add: nth_append)
  finally have "s ! i \<in> set (c_string s)"
    using assms by simp
  then have "s ! i \<noteq> NUL"
    using NUL_notin_c_string [of s] by auto
  with assms len show ?thesis by (simp add: deref_def)
qed

lemma strtoul_endp:
  "fst (snd (strtoul nptr)) =
    (let r = dropWhile isspace (c_string nptr);
         has_sign = (r \<noteq> [] \<and> (hd r = CHR ''-'' \<or> hd r = CHR ''+''));
         ds = takeWhile isdigit (if has_sign then tl r else r)
     in if ds = [] then 0
        else length (takeWhile isspace (c_string nptr)) + (if has_sign then 1 else 0) + length ds)"
  by (simp add: strtoul_def Let_def)

lemma strtoul_bad_char:
  assumes "c \<in> set (c_string nptr)" and "\<not> isdigit c" and "\<not> isspace c"
    and "c \<noteq> CHR ''-''" and "c \<noteq> CHR ''+''"
  shows "fst (snd (strtoul nptr)) = 0 \<or> deref nptr (fst (snd (strtoul nptr))) \<noteq> NUL"
proof -
  define ws where "ws = takeWhile isspace (c_string nptr)"
  define r where "r = dropWhile isspace (c_string nptr)"
  define has_sign where "has_sign \<longleftrightarrow> r \<noteq> [] \<and> (hd r = CHR ''-'' \<or> hd r = CHR ''+'')"
  define body where "body = (if has_sign then tl r else r)"
  define ds where "ds = takeWhile isdigit body"
  define rest where "rest = dropWhile isdigit body"
  have endp: "fst (snd (strtoul nptr)) =
    (if ds = [] then 0 else length ws + (if has_sign then 1 else 0) + length ds)"
    unfolding ws_def r_def has_sign_def body_def ds_def
    by (rule strtoul_endp [unfolded Let_def])
  have split1: "c_string nptr = ws @ r"
    by (simp add: ws_def r_def)
  have split2: "r = (if has_sign then [hd r] else []) @ body"
    by (cases r) (auto simp: has_sign_def body_def)
  have split3: "body = ds @ rest"
    by (simp add: ds_def rest_def)
  have "c \<notin> set ws"
    using assms(3) by (auto simp: ws_def dest: set_takeWhileD)
  moreover have "c \<notin> set (if has_sign then [hd r] else [])"
    using assms(4,5) by (auto simp: has_sign_def)
  moreover have "c \<notin> set ds"
    using assms(2) by (auto simp: ds_def dest: set_takeWhileD)
  moreover have "set (c_string nptr) =
      set ws \<union> set (if has_sign then [hd r] else []) \<union> set ds \<union> set rest"
    by (metis split1 split2 split3 set_append Un_assoc)
  ultimately have "c \<in> set rest"
    using assms(1) by blast
  then have "0 < length rest" by (cases rest) auto
  moreover have "length (c_string nptr) =
      length ws + (if has_sign then 1 else 0) + length ds + length rest"
  proof -
    have "length (c_string nptr) = length ws + length r"
      by (metis split1 length_append)
    also have "length r = (if has_sign then 1 else 0) + length body"
      by (subst split2) simp
    also have "length body = length ds + length rest"
      by (metis split3 length_append)
    finally show ?thesis by simp
  qed
  ultimately have "length ws + (if has_sign then 1 else 0) + length ds < length (c_string nptr)"
    by simp
  then have "deref nptr (length ws + (if has_sign then 1 else 0) + length ds) \<noteq> NUL"
    by (rule deref_inside)
  then show ?thesis
    by (cases "ds = []") (simp_all add: endp)
qed

lemma genkey_mode_summary:
  assumes "fst (snd (strtoul numbits_str)) = 0 \<or> snd (snd (strtoul numbits_str)) \<noteq> 0 \<or>
      deref numbits_str (fst (snd (strtoul numbits_str))) \<noteq> NUL \<or>
      UINT_MAX < unat (fst (strtoul numbits_str))"
  shows "fst (genkey_mode E numbits_str w) = 1 \<and>
      out (snd (genkey_mode E numbits_str w)) = out w \<and>
      err (snd (genkey_mode E numbits_str w)) \<noteq> err w \<and>
      calls (snd (genkey_mode E numbits_str w)) = calls w @ [Rsa_key_init, Rsa_key_clear]"
proof -
  obtain v endp errno where st: "strtoul numbits_str = (v, endp, errno)"
    by (cases "strtoul numbits_str")
  with assms have "endp = 0 \<or> errno \<noteq> 0 \<or> deref numbits_str endp \<noteq> NUL \<or> UINT_MAX < unat v"
    by simp
  from genkey_mode_rejected [OF st this] show ?thesis
    by (simp split: if_splits)
qed

lemma strtoul_empty: "c_string nptr = [] \<Longrightarrow> fst (snd (strtoul nptr)) = 0"
  by (simp add: strtoul_def)

lemma strtoul_large_digits:
  assumes "ds \<noteq> []" and "list_all isdigit ds" and "UINT_MAX < decimal ds"
  shows "snd (snd (strtoul ds)) \<noteq> 0 \<or> UINT_MAX < unat (fst (strtoul ds))"
proof (cases "ULONG_MAX < decimal ds")
  case True
  with assms have "snd (snd (strtoul ds)) = ERANGE" by (simp add: strtoul_digits)
  then show ?thesis by (simp add: ERANGE_def)
next
  case False
  with assms have "fst (strtoul ds) = of_nat (decimal ds)" by (simp add: strtoul_digits)
  with False assms(3) show ?thesis by (simp add: unat_of_nat_ulong)
qed

lemma modpow_eq: "modpow b k m = b ^ k mod m"
proof (induction b k m rule: modpow.induct)
  case (1 b k m)
  show ?case
  proof (cases "k = 0")
    case True
    then show ?thesis by (simp add: modpow.simps)
  next
    case False
    with 1 have ih: "modpow b (k div 2) m = b ^ (k div 2) mod m" by simp
    have "(b ^ (k div 2) mod m) * (b ^ (k div 2) mod m) mod m = b ^ (k div 2) * b ^ (k div 2) mod m"
      by (simp only: mod_mult_eq)
    also have "b ^ (k div 2) * b ^ (k div 2) = b ^ (2 * (k div 2))"
      by (simp only: power_even_eq power2_eq_square)
    finally have sq: "(b ^ (k div 2) mod m) * (b ^ (k div 2) mod m) mod m = b ^ (2 * (k div 2)) mod m" .
    show ?thesis
    proof (cases "even k")
      case True
      then have "2 * (k div 2) = k" by simp
      with sq False True show ?thesis
        by (subst modpow.simps) (simp add: ih Let_def)
    next
      case odd: False
      then have k: "Suc (2 * (k div 2)) = k" by simp
      have "(b ^ (2 * (k div 2)) mod m) * b mod m = b ^ Suc (2 * (k div 2)) mod m"
        by (simp add: mod_mult_right_eq mult.commute)
      with sq False odd k show ?thesis
        by (subst modpow.simps) (simp add: ih Let_def)
    qed
  qed
qed

lemma rsa_decrypt_modpow:
  "rsa_decrypt c key = modpow c (nat (private_exponent key)) (modulus key)"
  by (simp add: rsa_decrypt_def modpow_eq)


lemma rsa_decrypt_minus_5: "rsa_decrypt (- 5) example_key = 2848"
  by (simp add: rsa_decrypt_modpow example_key_def modpow.simps Let_def)


lemma decode_2848: "decode 2848 = ([CHR 0x0B, CHR 0x20], 2)"
  using decode_big_endian [of "[CHR 0x0B, CHR 0x20]"] by (simp add: big_endian_def NUL_def)


lemma neg_of_nat_64:
  assumes "0 < k" and "k \<le> ULONG_MAX"
  shows "- (of_nat k :: 64 word) = of_nat (2 ^ 64 - k)"
proof -
  from assms have "k + (2 ^ 64 - k) = (2 ^ 64 :: nat)" by (simp add: ULONG_MAX_def)
  then have "(of_nat k + of_nat (2 ^ 64 - k) :: 64 word) = of_nat (2 ^ 64)"
    by (simp only: of_nat_add [symmetric])
  also have "\<dots> = 0" by simp
  finally show ?thesis by (simp only: neg_eq_iff_add_eq_0)
qed

lemma unat_neg_of_nat_64:
  assumes "0 < k" and "k \<le> ULONG_MAX"
  shows "unat (- (of_nat k :: 64 word)) = 2 ^ 64 - k"
  using assms by (simp add: neg_of_nat_64 unat_of_nat)

lemma ucast_neg_of_nat_64:
  assumes "0 < k" and "k \<le> ULONG_MAX"
  shows "(ucast (- (of_nat k :: 64 word)) :: 32 word) = of_nat (2 ^ 64 - k)"
proof -
  have "(ucast (- (of_nat k :: 64 word)) :: 32 word) = of_nat (unat (- (of_nat k :: 64 word)))"
    by simp
  then show ?thesis using assms by (simp only: unat_neg_of_nat_64)
qed

lemma decrypt_mode_parsed:
  assumes "mpz_set_str c_str = Some c"
  shows "decrypt_mode E key_filename c_str w =
    (case private_key_file E (c_string key_filename) of
       None \<Rightarrow>
         (1, w\<lparr>err := err w @ ''error reading key file '' @ c_string key_filename @ ''\<newline>'',
                calls := calls w @ [Rsa_key_init, Rsa_key_load_private (c_string key_filename),
                                    Rsa_key_clear]\<rparr>)
     | Some key \<Rightarrow>
         (case decode (rsa_decrypt c key) of
            (message, len) \<Rightarrow>
              if len = 0 \<or> \<not> stdout_ok E
              then (1, w\<lparr>err := err w @ ''error writing plaintext\<newline>'',
                          calls := calls w @ [Rsa_key_init, Rsa_key_load_private (c_string key_filename),
                                              Rsa_decrypt c, Rsa_key_clear]\<rparr>)
              else (0, w\<lparr>out := out w @ message,
                          calls := calls w @ [Rsa_key_init, Rsa_key_load_private (c_string key_filename),
                                              Rsa_decrypt c, Rsa_key_clear]\<rparr>)))"
proof (cases "private_key_file E (c_string key_filename)")
  case None
  from decrypt_mode_key_error [OF assms None] None show ?thesis by simp
next
  case (Some key)
  obtain message len where d: "decode (rsa_decrypt c key) = (message, len)"
    by (cases "decode (rsa_decrypt c key)")
  from decrypt_mode_loaded [OF assms Some d] Some d show ?thesis by simp
qed



lemma decimal_integer_parsed:
  assumes "decimal_integer s" and "s = [] \<or> hd s \<noteq> CHR ''+''"
  shows "mpz_set_str s = Some (decimal_value s)"
proof (cases "s \<noteq> [] \<and> hd s = CHR ''-''")
  case True
  then obtain ds where s: "s = CHR ''-'' # ds" by (cases s) auto
  with assms(1) have "ds \<noteq> []" "list_all isdigit ds"
    by (simp_all add: decimal_integer_def)
  then show ?thesis
    by (simp add: s mpz_set_str_negative decimal_value_def)
next
  case False
  with assms have "s \<noteq> []" "list_all isdigit s"
    by (auto simp: decimal_integer_def Let_def split: if_splits)
  with False assms(2) show ?thesis
    by (auto simp: mpz_set_str_digits decimal_value_def)
qed


lemma strtoul_negative:
  assumes "ds \<noteq> []" and "list_all isdigit ds" and "decimal ds \<le> ULONG_MAX"
  shows "strtoul (CHR ''-'' # ds) = (- of_nat (decimal ds), Suc (length ds), 0)"
proof -
  from assms(2) have rest: "takeWhile isdigit ds = ds"
    by (rule takeWhile_digits)
  from assms(2) have str: "c_string (CHR ''-'' # ds) = CHR ''-'' # ds"
    by (simp add: c_string_Cons minus_not_NUL digits_c_string)
  from assms(3) have small: "\<not> ULONG_MAX < decimal ds" by simp
  show ?thesis
    unfolding strtoul_def str by (simp add: minus_not_isspace rest assms(1) small Let_def)
qed

lemma genkey_mode_accepted:
  assumes "strtoul numbits_str = (v, endp, 0)" and "endp \<noteq> 0"
    and "deref numbits_str endp = NUL" and "unat v \<le> UINT_MAX"
  shows "genkey_mode E numbits_str w =
    (if stdout_ok E
     then (0, w\<lparr>out := out w @ key_text E (fresh_key E (ucast v)),
                 calls := calls w @ [Rsa_key_init, Rsa_genkey (ucast v), Rsa_key_write,
                                     Rsa_key_clear]\<rparr>)
     else (1, w\<lparr>calls := calls w @ [Rsa_key_init, Rsa_genkey (ucast v), Rsa_key_write,
                                     Rsa_key_clear]\<rparr>))"
  using assms by (simp add: genkey_mode_def rsa_key_write_def called_def Let_def)

lemma genkey_mode_negative:
  assumes "ds \<noteq> []" and "list_all isdigit ds"
    and "ULONG_MAX - UINT_MAX < decimal ds" and "decimal ds \<le> ULONG_MAX"
  shows "genkey_mode E (CHR ''-'' # ds) w =
    (if stdout_ok E
     then (0, w\<lparr>out := out w @ key_text E (fresh_key E (of_nat (2 ^ 64 - decimal ds))),
                 calls := calls w @ [Rsa_key_init, Rsa_genkey (of_nat (2 ^ 64 - decimal ds)),
                                     Rsa_key_write, Rsa_key_clear]\<rparr>)
     else (1, w\<lparr>calls := calls w @ [Rsa_key_init, Rsa_genkey (of_nat (2 ^ 64 - decimal ds)),
                                     Rsa_key_write, Rsa_key_clear]\<rparr>))"
proof -
  from assms(3) have pos: "0 < decimal ds" by simp
  have st: "strtoul (CHR ''-'' # ds) = (- of_nat (decimal ds), Suc (length ds), 0)"
    using assms(1,2,4) by (rule strtoul_negative)
  have "deref (CHR ''-'' # ds) (Suc (length ds)) = NUL"
    by (simp add: deref_def)
  moreover have "unat (- (of_nat (decimal ds) :: 64 word)) \<le> UINT_MAX"
    using assms(3,4) by (simp add: unat_neg_of_nat_64 [OF pos assms(4)] ULONG_MAX_def UINT_MAX_def)
  ultimately show ?thesis
    using genkey_mode_accepted [OF st, of E w]
    by (simp add: ucast_neg_of_nat_64 [OF pos assms(4)])
qed

lemma decimal_ulong_max: "decimal ''18446744073709551615'' = 18446744073709551615"
  by (simp add: decimal_def digit_value_def)

lemma show_mpz_3233: "show_mpz 3233 = ''3233''"
  by (simp add: show_mpz_def decimal_digits.simps char_of_eq_iff)


lemma mpz_set_str_plus_5: "mpz_set_str ''+5'' = None"
  by (simp add: mpz_set_str_def c_string_def NUL_def isspace_def isdigit_def)

section \<open>Claims about the command line\<close>

text \<open>
  C3. The empty message encodes to 0. Whenever the ciphertext argument parses, the private
  key loads and the ciphertext decrypts to 0 (as the ciphertext 0 of the empty message
  does), \<open>decrypt_mode\<close> writes nothing, reports "error writing plaintext" and returns
  1: \<open>fwrite\<close> of an item of size 0 returns 0, which the test against 1 takes for a
  failed write.
\<close>

theorem empty_plaintext_reported_as_write_error:
  "encode [] = 0 \<and>
   (mpz_set_str c_str = Some c \<and> private_key_file E (c_string key_filename) = Some key \<and>
    rsa_decrypt c key = 0 \<longrightarrow>
      decrypt_mode E key_filename c_str w =
        (1, w\<lparr>err := err w @ ''error writing plaintext\<newline>'',
               calls := calls w @ [Rsa_key_init, Rsa_key_load_private (c_string key_filename),
                                   Rsa_decrypt c, Rsa_key_clear]\<rparr>))"
proof (intro conjI impI)
  show "encode [] = 0" by (simp add: encode_def mpz_import_def)
next
  assume a: "mpz_set_str c_str = Some c \<and> private_key_file E (c_string key_filename) = Some key \<and>
    rsa_decrypt c key = 0"
  then have "decode (rsa_decrypt c key) = ([], 0)" by (simp add: decode_0)
  with a show "decrypt_mode E key_filename c_str w =
        (1, w\<lparr>err := err w @ ''error writing plaintext\<newline>'',
               calls := calls w @ [Rsa_key_init, Rsa_key_load_private (c_string key_filename),
                                   Rsa_decrypt c, Rsa_key_clear]\<rparr>)"
    by (simp add: decrypt_mode_loaded)
qed

text \<open>
  The run behind C3 with the example key: encrypting the empty message prints the
  ciphertext 0, and decrypting 0 exits with code 1.
\<close>

theorem empty_plaintext_reported_as_write_error_witness:
  "main example_env [''rsa'', ''encrypt'', ''pub.key'', ''''] start =
     (0, \<lparr>out = ''0\<newline>'', err = [],
          calls = [Rsa_key_init, Rsa_key_load_public ''pub.key'', Rsa_encrypt 0, Rsa_key_clear]\<rparr>) \<and>
   mpz_set_str ''0'' = Some 0 \<and>
   private_key_file example_env (c_string ''priv.key'') = Some example_key \<and>
   rsa_decrypt 0 example_key = 0 \<and>
   main example_env [''rsa'', ''decrypt'', ''priv.key'', ''0''] start =
     (1, \<lparr>out = [], err = ''error writing plaintext\<newline>'',
          calls = [Rsa_key_init, Rsa_key_load_private ''priv.key'', Rsa_decrypt 0, Rsa_key_clear]\<rparr>)"
  using empty_plaintext_reported_as_write_error
    [of "''0''" 0 example_env "''priv.key''" example_key start]
  by (simp add: main_encrypt main_decrypt c_string_literals encrypt_mode_loaded example_files
      c_string_file_names show_mpz_0 rsa_example_zero mpz_set_str_0 start_def)

text \<open>
  C4 (as amended). An invocation with no command or with an unrecognized command prints
  the usage text to standard error and exits with code 1. An invocation of \<open>encrypt\<close>,
  \<open>decrypt\<close> or \<open>genkey\<close> with the wrong number of arguments exits with code 1 too, but
  prints the one-line message of that subcommand to standard error, not the usage text.
  Nothing is written to standard output and no library call is made.
\<close>

theorem usage_or_argument_message:
  "(length argv < 2 \<or>
    c_string (argv ! 1) \<notin> set [''-h'', ''--help'', ''help'', ''encrypt'', ''decrypt'', ''genkey'']
    \<longrightarrow> main E argv w = (1, w\<lparr>err := err w @ usage_text\<rparr>)) \<and>
   (2 \<le> length argv \<and> c_string (argv ! 1) = ''encrypt'' \<and> length argv \<noteq> 4
    \<longrightarrow> main E argv w = (1, w\<lparr>err := err w @ ''encrypt needs a key filename and a message\<newline>''\<rparr>)) \<and>
   (2 \<le> length argv \<and> c_string (argv ! 1) = ''decrypt'' \<and> length argv \<noteq> 4
    \<longrightarrow> main E argv w = (1, w\<lparr>err := err w @ ''decrypt needs a key filename and a ciphertext\<newline>''\<rparr>)) \<and>
   (2 \<le> length argv \<and> c_string (argv ! 1) = ''genkey'' \<and> length argv \<noteq> 3
    \<longrightarrow> main E argv w = (1, w\<lparr>err := err w @ ''genkey needs a number of bits\<newline>''\<rparr>))"
proof (intro conjI impI)
  assume "length argv < 2 \<or>
    c_string (argv ! 1) \<notin> set [''-h'', ''--help'', ''help'', ''encrypt'', ''decrypt'', ''genkey'']"
  then show "main E argv w = (1, w\<lparr>err := err w @ usage_text\<rparr>)"
  proof
    assume "length argv < 2"
    then show ?thesis by (rule main_no_command)
  next
    assume other: "c_string (argv ! 1) \<notin> set [''-h'', ''--help'', ''help'', ''encrypt'', ''decrypt'', ''genkey'']"
    show ?thesis
    proof (cases "length argv < 2")
      case True
      then show ?thesis by (rule main_no_command)
    next
      case False
      then have "2 \<le> length argv" by simp
      from this other show ?thesis by (rule main_unrecognized)
    qed
  qed
next
  assume "2 \<le> length argv \<and> c_string (argv ! 1) = ''encrypt'' \<and> length argv \<noteq> 4"
  then show "main E argv w = (1, w\<lparr>err := err w @ ''encrypt needs a key filename and a message\<newline>''\<rparr>)"
    by (simp add: main_encrypt)
next
  assume "2 \<le> length argv \<and> c_string (argv ! 1) = ''decrypt'' \<and> length argv \<noteq> 4"
  then show "main E argv w = (1, w\<lparr>err := err w @ ''decrypt needs a key filename and a ciphertext\<newline>''\<rparr>)"
    by (simp add: main_decrypt)
next
  assume "2 \<le> length argv \<and> c_string (argv ! 1) = ''genkey'' \<and> length argv \<noteq> 3"
  then show "main E argv w = (1, w\<lparr>err := err w @ ''genkey needs a number of bits\<newline>''\<rparr>)"
    by (simp add: main_genkey)
qed

text \<open>
  Instances of C4 as amended: no command, an unknown command, and each subcommand with a
  wrong number of arguments.
\<close>

theorem usage_or_argument_message_witness:
  "main example_env [''rsa''] start = (1, start\<lparr>err := usage_text\<rparr>) \<and>
   main example_env [''rsa'', ''frobnicate''] start = (1, start\<lparr>err := usage_text\<rparr>) \<and>
   main example_env [''rsa'', ''encrypt'', ''pub.key''] start =
     (1, start\<lparr>err := ''encrypt needs a key filename and a message\<newline>''\<rparr>) \<and>
   main example_env [''rsa'', ''decrypt''] start =
     (1, start\<lparr>err := ''decrypt needs a key filename and a ciphertext\<newline>''\<rparr>) \<and>
   main example_env [''rsa'', ''genkey'', ''512'', ''extra''] start =
     (1, start\<lparr>err := ''genkey needs a number of bits\<newline>''\<rparr>)"
  using usage_or_argument_message [of "[''rsa'']" example_env start]
    usage_or_argument_message [of "[''rsa'', ''frobnicate'']" example_env start]
    usage_or_argument_message [of "[''rsa'', ''encrypt'', ''pub.key'']" example_env start]
    usage_or_argument_message [of "[''rsa'', ''decrypt'']" example_env start]
    usage_or_argument_message [of "[''rsa'', ''genkey'', ''512'', ''extra'']" example_env start]
  by (simp add: c_string_def NUL_def start_def)

text \<open>
  C4 as stated fails for \<open>rsa encrypt\<close> without further arguments: standard error
  receives the message of \<open>encrypt\<close>, which is not the usage text.
\<close>

theorem wrong_count_not_usage_counterexample:
  "err (snd (main example_env [''rsa'', ''encrypt''] start)) =
     ''encrypt needs a key filename and a message\<newline>'' \<and>
   err (snd (main example_env [''rsa'', ''encrypt''] start)) \<noteq> usage_text"
  by (simp add: main_encrypt c_string_def NUL_def start_def usage_text_def)




text \<open>
  C6. \<open>genkey_mode\<close> rejects, before any key is generated, the empty argument, every
  argument holding a character that is neither a digit, white space nor a sign, and every
  plain decimal numeral above \<open>UINT_MAX\<close>. A numeral behind a minus sign is not rejected
  as such: \<open>strtoul\<close> negates its value in \<open>unsigned long\<close>, and for a numeral above
  \<open>ULONG_MAX - UINT_MAX\<close> the negated value passes both tests, \<open>rsa_genkey\<close> is called
  with it, and the key is written.
\<close>

theorem genkey_minus_sign_wraps_around:
  "(c_string numbits_str = [] \<or>
    (\<exists>c. c \<in> set (c_string numbits_str) \<and> \<not> isdigit c \<and> \<not> isspace c \<and>
         c \<noteq> CHR ''-'' \<and> c \<noteq> CHR ''+'') \<or>
    (numbits_str \<noteq> [] \<and> list_all isdigit numbits_str \<and> UINT_MAX < decimal numbits_str) \<longrightarrow>
      fst (genkey_mode E numbits_str w) = 1 \<and>
      out (snd (genkey_mode E numbits_str w)) = out w \<and>
      err (snd (genkey_mode E numbits_str w)) \<noteq> err w \<and>
      calls (snd (genkey_mode E numbits_str w)) = calls w @ [Rsa_key_init, Rsa_key_clear]) \<and>
   (ds \<noteq> [] \<and> list_all isdigit ds \<and> ULONG_MAX - UINT_MAX < decimal ds \<and> decimal ds \<le> ULONG_MAX \<longrightarrow>
      genkey_mode E (CHR ''-'' # ds) w =
        (if stdout_ok E
         then (0, w\<lparr>out := out w @ key_text E (fresh_key E (of_nat (2 ^ 64 - decimal ds))),
                     calls := calls w @ [Rsa_key_init, Rsa_genkey (of_nat (2 ^ 64 - decimal ds)),
                                         Rsa_key_write, Rsa_key_clear]\<rparr>)
         else (1, w\<lparr>calls := calls w @ [Rsa_key_init, Rsa_genkey (of_nat (2 ^ 64 - decimal ds)),
                                         Rsa_key_write, Rsa_key_clear]\<rparr>)))"
proof (intro conjI impI)
  assume "c_string numbits_str = [] \<or>
    (\<exists>c. c \<in> set (c_string numbits_str) \<and> \<not> isdigit c \<and> \<not> isspace c \<and>
         c \<noteq> CHR ''-'' \<and> c \<noteq> CHR ''+'') \<or>
    (numbits_str \<noteq> [] \<and> list_all isdigit numbits_str \<and> UINT_MAX < decimal numbits_str)"
  then have "fst (snd (strtoul numbits_str)) = 0 \<or> snd (snd (strtoul numbits_str)) \<noteq> 0 \<or>
      deref numbits_str (fst (snd (strtoul numbits_str))) \<noteq> NUL \<or>
      UINT_MAX < unat (fst (strtoul numbits_str))"
  proof (elim disjE exE conjE)
    assume "c_string numbits_str = []"
    then have "fst (snd (strtoul numbits_str)) = 0" by (rule strtoul_empty)
    then show ?thesis by simp
  next
    fix c
    assume "c \<in> set (c_string numbits_str)" "\<not> isdigit c" "\<not> isspace c"
      "c \<noteq> CHR ''-''" "c \<noteq> CHR ''+''"
    then have "fst (snd (strtoul numbits_str)) = 0 \<or>
        deref numbits_str (fst (snd (strtoul numbits_str))) \<noteq> NUL"
      by (rule strtoul_bad_char)
    then show ?thesis by auto
  next
    assume "numbits_str \<noteq> []" "list_all isdigit numbits_str" "UINT_MAX < decimal numbits_str"
    then have "snd (snd (strtoul numbits_str)) \<noteq> 0 \<or> UINT_MAX < unat (fst (strtoul numbits_str))"
      by (rule strtoul_large_digits)
    then show ?thesis by auto
  qed
  then have summary: "fst (genkey_mode E numbits_str w) = 1 \<and>
      out (snd (genkey_mode E numbits_str w)) = out w \<and>
      err (snd (genkey_mode E numbits_str w)) \<noteq> err w \<and>
      calls (snd (genkey_mode E numbits_str w)) = calls w @ [Rsa_key_init, Rsa_key_clear]"
    by (rule genkey_mode_summary)
  from summary show "fst (genkey_mode E numbits_str w) = 1" by simp
  from summary show "out (snd (genkey_mode E numbits_str w)) = out w" by simp
  from summary show "err (snd (genkey_mode E numbits_str w)) \<noteq> err w" by simp
  from summary show "calls (snd (genkey_mode E numbits_str w)) = calls w @ [Rsa_key_init, Rsa_key_clear]"
    by simp
next
  assume "ds \<noteq> [] \<and> list_all isdigit ds \<and> ULONG_MAX - UINT_MAX < decimal ds \<and> decimal ds \<le> ULONG_MAX"
  then show "genkey_mode E (CHR ''-'' # ds) w =
        (if stdout_ok E
         then (0, w\<lparr>out := out w @ key_text E (fresh_key E (of_nat (2 ^ 64 - decimal ds))),
                     calls := calls w @ [Rsa_key_init, Rsa_genkey (of_nat (2 ^ 64 - decimal ds)),
                                         Rsa_key_write, Rsa_key_clear]\<rparr>)
         else (1, w\<lparr>calls := calls w @ [Rsa_key_init, Rsa_genkey (of_nat (2 ^ 64 - decimal ds)),
                                         Rsa_key_write, Rsa_key_clear]\<rparr>))"
    by (simp add: genkey_mode_negative)
qed

text \<open>
  The run behind C6: \<open>rsa genkey -18446744073709551615\<close> generates a key of 1 bit and
  exits with code 0, while 4294967296, which is \<open>UINT_MAX + 1\<close>, is rejected.
\<close>

theorem genkey_minus_sign_wraps_around_witness:
  "list_all isdigit ''18446744073709551615'' \<and>
   ULONG_MAX - UINT_MAX < decimal ''18446744073709551615'' \<and>
   decimal ''18446744073709551615'' \<le> ULONG_MAX \<and>
   main example_env [''rsa'', ''genkey'', ''-18446744073709551615''] start =
     (0, \<lparr>out = ''3233\<newline>'', err = [],
          calls = [Rsa_key_init, Rsa_genkey 1, Rsa_key_write, Rsa_key_clear]\<rparr>) \<and>
   UINT_MAX < decimal ''4294967296'' \<and>
   fst (main example_env [''rsa'', ''genkey'', ''4294967296''] start) = 1 \<and>
   calls (snd (main example_env [''rsa'', ''genkey'', ''4294967296''] start)) =
     [Rsa_key_init, Rsa_key_clear]"
  using genkey_minus_sign_wraps_around
      [of "''4294967296''" example_env start "''18446744073709551615''"]
  by (simp add: main_genkey c_string_literals decimal_ulong_max decimal_4294967296 isdigit_def
      ULONG_MAX_def UINT_MAX_def example_env_def example_key_def show_mpz_3233 start_def)

text \<open>
  C9 (as amended). The ciphertext parse of \<open>decrypt\<close> accepts every decimal integer
  written without a plus sign, the negative ones included, and reads its value. For such
  an argument \<open>decrypt_mode\<close> does not report a parse error: it loads the private key,
  and where the key loads it calls \<open>rsa_decrypt\<close> with that value, negative or not,
  writes the decoded bytes to standard output and returns 0 (or reports the failed write
  and returns 1).
\<close>

theorem unsigned_or_minus_ciphertext_is_decrypted:
  "decimal_integer c_str \<and> hd c_str \<noteq> CHR ''+'' \<Longrightarrow>
   mpz_set_str c_str = Some (decimal_value c_str) \<and>
   decrypt_mode E key_filename c_str w =
    (case private_key_file E (c_string key_filename) of
       None \<Rightarrow>
         (1, w\<lparr>err := err w @ ''error reading key file '' @ c_string key_filename @ ''\<newline>'',
                calls := calls w @ [Rsa_key_init, Rsa_key_load_private (c_string key_filename),
                                    Rsa_key_clear]\<rparr>)
     | Some key \<Rightarrow>
         (case decode (rsa_decrypt (decimal_value c_str) key) of
            (message, len) \<Rightarrow>
              if len = 0 \<or> \<not> stdout_ok E
              then (1, w\<lparr>err := err w @ ''error writing plaintext\<newline>'',
                          calls := calls w @ [Rsa_key_init, Rsa_key_load_private (c_string key_filename),
                                              Rsa_decrypt (decimal_value c_str), Rsa_key_clear]\<rparr>)
              else (0, w\<lparr>out := out w @ message,
                          calls := calls w @ [Rsa_key_init, Rsa_key_load_private (c_string key_filename),
                                              Rsa_decrypt (decimal_value c_str), Rsa_key_clear]\<rparr>)))"
proof -
  assume "decimal_integer c_str \<and> hd c_str \<noteq> CHR ''+''"
  then have parsed: "mpz_set_str c_str = Some (decimal_value c_str)"
    by (simp add: decimal_integer_parsed)
  from parsed decrypt_mode_parsed [OF parsed, of E key_filename w] show ?thesis
    by (simp only: simp_thms)
qed

text \<open>
  An instance of C9 as amended at the ciphertext argument \<open>-5\<close>: with the example key
  \<open>rsa_decrypt\<close> is called with -5 and gives 2848, and the two bytes 0B 20 are written.
\<close>

theorem unsigned_or_minus_ciphertext_is_decrypted_witness:
  "decimal_integer ''-5'' \<and> hd ''-5'' \<noteq> CHR ''+'' \<and> mpz_set_str ''-5'' = Some (- 5) \<and>
   decrypt_mode example_env ''priv.key'' ''-5'' start =
     (0, \<lparr>out = [CHR 0x0B, CHR 0x20], err = [],
          calls = [Rsa_key_init, Rsa_key_load_private ''priv.key'', Rsa_decrypt (- 5),
                   Rsa_key_clear]\<rparr>)"
  using unsigned_or_minus_ciphertext_is_decrypted [of "''-5''" example_env "''priv.key''" start]
  by (simp add: decimal_integer_def decimal_value_def isdigit_def decimal_def digit_value_def
      example_files c_string_file_names rsa_decrypt_minus_5 decode_2848 start_def)

text \<open>
  C9 as stated fails at the decimal integer \<open>+5\<close>: \<open>mpz_set_str\<close> takes no plus sign,
  and the run ends with the parse error.
\<close>

theorem plus_sign_ciphertext_rejected_counterexample:
  "decimal_integer ''+5'' \<and> mpz_set_str ''+5'' = None \<and>
   main example_env [''rsa'', ''decrypt'', ''priv.key'', ''+5''] start =
     (1, \<lparr>out = [], err = ''could not parse ciphertext\<newline>'',
          calls = [Rsa_key_init, Rsa_key_clear]\<rparr>)"
  by (simp add: decimal_integer_def isdigit_def mpz_set_str_plus_5 main_decrypt c_string_literals
      decrypt_mode_parse_error start_def)

text \<open>
  C10. When the ciphertext argument does not parse, \<open>decrypt_mode\<close> reports "could not
  parse ciphertext" and returns 1 with no call that loads the key, and its result is the
  same for every environment and every key file name.
\<close>

theorem ciphertext_parsed_before_key_load:
  "mpz_set_str c_str = None \<Longrightarrow>
   decrypt_mode E key_filename c_str w =
     (1, w\<lparr>err := err w @ ''could not parse ciphertext\<newline>'',
            calls := calls w @ [Rsa_key_init, Rsa_key_clear]\<rparr>) \<and>
   decrypt_mode E key_filename c_str w = decrypt_mode E' key_filename' c_str w"
  by (simp add: decrypt_mode_parse_error)

text \<open>
  An instance of C10: the same result for a key file that is missing and one that loads.
\<close>

theorem ciphertext_parsed_before_key_load_witness:
  "mpz_set_str ''notanumber'' = None \<and>
   decrypt_mode example_env ''missing.key'' ''notanumber'' start =
     (1, \<lparr>out = [], err = ''could not parse ciphertext\<newline>'',
          calls = [Rsa_key_init, Rsa_key_clear]\<rparr>) \<and>
   decrypt_mode example_env ''missing.key'' ''notanumber'' start =
     decrypt_mode example_env ''priv.key'' ''notanumber'' start"
  using ciphertext_parsed_before_key_load
    [of "''notanumber''" example_env "''missing.key''" start example_env "''priv.key''"]
  by (simp add: mpz_set_str_notanumber decrypt_mode_parse_error start_def)

end
